theory Spec2Isabelle
  imports Main "HOL-Library.Word"
begin

section \<open>Machine integers and pointers\<close>

text \<open>
  The C++ integer types of \<^verbatim>\<open>pipeline_task.h\<close>, as words of their width: \<open>+\<close> wraps
  around as the unsigned types do, \<open>unat\<close> reads a word as unsigned and \<open>sint\<close> as two's
  complement. \<^verbatim>\<open>int\<close> is 32 bits wide, \<^verbatim>\<open>long\<close> and the profile counters' \<^verbatim>\<open>int64_t\<close> 64.
\<close>

type_synonym int32 = "32 word"
type_synonym uint32 = "32 word"
type_synonym int64 = "64 word"
type_synonym uint64 = "64 word"

text \<open>
  \<^verbatim>\<open>OperatorPtr\<close> and \<^verbatim>\<open>PipelinePtr\<close> are shared pointers: the objects live in a store, and
  a task holds their addresses. Two pointers to one object are one address (the source of a
  task is the front of its operator list). \<^verbatim>\<open>RuntimeState*\<close> and \<^verbatim>\<open>vectorized::Block*\<close> are
  addresses that no function modelled here dereferences.
\<close>

type_synonym OperatorPtr = nat
type_synonym PipelinePtr = nat
type_synonym RuntimeStatePtr = nat
type_synonym BlockPtr = nat

section \<open>Declarations the headers use from files that are not part of the sources\<close>

text \<open>
  Modelled from the spec: \<^verbatim>\<open>common/status.h\<close> is not among the sources. The headers return
  \<^verbatim>\<open>Status::OK()\<close>; section 7 has the error kinds, and a status here is OK or an error with
  its message.
\<close>

datatype Status = OK | Error string

text \<open>
  Modelled from the spec: \<^verbatim>\<open>SourceState\<close> is declared in \<^verbatim>\<open>exec/operator.h\<close>, which is not
  among the sources. Section 3: a three-valued tag returned alongside every produced block,
  \<^verbatim>\<open>DEPEND_ON_SOURCE\<close>, \<^verbatim>\<open>MORE_DATA\<close> or \<^verbatim>\<open>FINISHED\<close>. The constructor of a task starts from
  \<^verbatim>\<open>SourceState::DEPEND_ON_SOURCE\<close>.
\<close>

datatype SourceState = DEPEND_ON_SOURCE | MORE_DATA | FINISHED

text \<open>
  \<^verbatim>\<open>OperatorBase\<close> is declared in \<^verbatim>\<open>exec/operator.h\<close>, which is not among the sources: its
  virtual methods are parameters. The record has the four predicates that the task calls
  through its operator pointers, and \<^verbatim>\<open>try_close\<close> of section 4.1 of the specification. An
  operator object is a value of the type \<open>'o\<close> (it carries what its class needs), and the
  interface is an argument of every function that calls it. \<open>op_try_close\<close> returns the
  status and the operator after the call.
\<close>

record 'o OperatorBase =
  op_can_read :: "'o \<Rightarrow> bool"
  op_can_write :: "'o \<Rightarrow> bool"
  op_is_pending_finish :: "'o \<Rightarrow> bool"
  op_runtime_filters_are_ready_or_timeout :: "'o \<Rightarrow> bool"
  op_try_close :: "'o \<Rightarrow> Status \<times> 'o"

text \<open>
  \<^verbatim>\<open>MonotonicStopWatch\<close> is declared in \<^verbatim>\<open>util/stopwatch.hpp\<close>, which is not among the
  sources: a stopwatch is a value of the type \<open>'w\<close>, and its methods \<^verbatim>\<open>start()\<close> and
  \<^verbatim>\<open>stop()\<close> are parameters.
\<close>

record 'w MonotonicStopWatch =
  sw_start :: "'w \<Rightarrow> 'w"
  sw_stop :: "'w \<Rightarrow> 'w"

text \<open>
  \<^verbatim>\<open>Pipeline\<close> is declared in \<^verbatim>\<open>pipeline.h\<close>, which is not among the sources: the record has
  the fields that \<^verbatim>\<open>pipeline_task.h\<close> reads (\<^verbatim>\<open>_can_steal\<close>, \<^verbatim>\<open>_previous_schedule_id\<close>, the
  last-known core hint of the specification, and \<^verbatim>\<open>_parents\<close>). An Isabelle name
  starts with a letter: the members of \<^verbatim>\<open>Pipeline\<close> are written \<open>pl_\<close> and their name without the
  leading underscore, those of \<^verbatim>\<open>PipelineTask\<close> \<open>m_\<close> and their name.
\<close>

record Pipeline =
  pl_can_steal :: bool
  pl_previous_schedule_id :: int32
  pl_parents :: "PipelinePtr list"

section \<open>pipeline\_task.h\<close>

datatype PipelineTaskState =
    NOT_READY
  | BLOCKED_FOR_DEPENDENCY
  | BLOCKED_FOR_SOURCE
  | BLOCKED_FOR_SINK
  | RUNNABLE
  | PENDING_FINISH
  | FINISHED
  | CANCELED
  | BLOCKED_FOR_RF

text \<open>The values of the enumeration, as \<^verbatim>\<open>uint8_t\<close>.\<close>

fun PipelineTaskState_value :: "PipelineTaskState \<Rightarrow> 8 word" where
  "PipelineTaskState_value NOT_READY = 0"
| "PipelineTaskState_value BLOCKED_FOR_DEPENDENCY = 1"
| "PipelineTaskState_value BLOCKED_FOR_SOURCE = 2"
| "PipelineTaskState_value BLOCKED_FOR_SINK = 3"
| "PipelineTaskState_value RUNNABLE = 4"
| "PipelineTaskState_value PENDING_FINISH = 5"
| "PipelineTaskState_value PipelineTaskState.FINISHED = 6"
| "PipelineTaskState_value CANCELED = 7"
| "PipelineTaskState_value BLOCKED_FOR_RF = 8"

fun get_state_name :: "PipelineTaskState \<Rightarrow> string" where
  "get_state_name NOT_READY = ''NOT_READY''"
| "get_state_name BLOCKED_FOR_DEPENDENCY = ''BLOCKED_FOR_DEPENDENCY''"
| "get_state_name BLOCKED_FOR_SOURCE = ''BLOCKED_FOR_SOURCE''"
| "get_state_name BLOCKED_FOR_SINK = ''BLOCKED_FOR_SINK''"
| "get_state_name RUNNABLE = ''RUNNABLE''"
| "get_state_name PENDING_FINISH = ''PENDING_FINISH''"
| "get_state_name PipelineTaskState.FINISHED = ''FINISHED''"
| "get_state_name CANCELED = ''CANCELED''"
| "get_state_name BLOCKED_FOR_RF = ''BLOCKED_FOR_RF''"

text \<open>
  The members of \<^verbatim>\<open>PipelineTask\<close> that the functions below read or write. The profile
  counters are pointers into the task's own profile; the record holds the value of the one
  counter that the header updates (\<^verbatim>\<open>_core_change_times\<close>). The members left out
  (\<^verbatim>\<open>_state\<close>, \<^verbatim>\<open>_block\<close>, \<^verbatim>\<open>_fragment_context\<close>, \<^verbatim>\<open>_task_queue\<close>, the profiles, the other
  counters and the source and sink watchers) are touched by no function of the header.
\<close>

record 'w PipelineTask =
  m_index :: uint32
  m_pipeline :: PipelinePtr
  m_dependency_finish :: bool
  m_operators :: "OperatorPtr list"
  m_source :: OperatorPtr
  m_root :: OperatorPtr
  m_sink :: OperatorPtr
  m_prepared :: bool
  m_opened :: bool
  m_can_steal :: bool
  m_previous_schedule_id :: int32
  m_schedule_time :: uint32
  m_cur_state :: PipelineTaskState
  m_data_state :: SourceState
  m_runtime :: uint64
  m_queue_level :: int32
  m_core_id :: int32
  m_wait_worker_watcher :: 'w
  m_wait_schedule_watcher :: 'w
  m_core_change_times :: int64

text \<open>
  The constructor. \<^verbatim>\<open>_operators.front()\<close> and \<^verbatim>\<open>_operators.back()\<close> of an empty vector are
  undefined in C++: the model returns \<open>None\<close> there. The members with a default
  initialiser take it; \<open>w0\<close> is a default-constructed stopwatch. The constructor leaves the
  counter pointers unset; the counter's value is zero here, as it is when the profile is
  initialised. The arguments \<^verbatim>\<open>state\<close>, \<^verbatim>\<open>fragment_context\<close> and \<^verbatim>\<open>parent_profile\<close> go to
  members that the record leaves out.
\<close>

definition PipelineTask_new ::
  "(PipelinePtr \<Rightarrow> Pipeline) \<Rightarrow> 'w \<Rightarrow> PipelinePtr \<Rightarrow> uint32 \<Rightarrow> OperatorPtr list \<Rightarrow> OperatorPtr
     \<Rightarrow> 'w PipelineTask option" where
  "PipelineTask_new pipelines w0 pipeline index operators sink =
     (if operators = [] then None
      else Some \<lparr>
        m_index = index,
        m_pipeline = pipeline,
        m_dependency_finish = False,
        m_operators = operators,
        m_source = hd operators,
        m_root = last operators,
        m_sink = sink,
        m_prepared = False,
        m_opened = False,
        m_can_steal = pl_can_steal (pipelines pipeline),
        m_previous_schedule_id = - 1,
        m_schedule_time = 0,
        m_cur_state = NOT_READY,
        m_data_state = DEPEND_ON_SOURCE,
        m_runtime = 0,
        m_queue_level = 0,
        m_core_id = 0,
        m_wait_worker_watcher = w0,
        m_wait_schedule_watcher = w0,
        m_core_change_times = 0 \<rparr>)"

definition put_in_runnable_queue :: "'w MonotonicStopWatch \<Rightarrow> 'w PipelineTask \<Rightarrow> 'w PipelineTask" where
  "put_in_runnable_queue sw t =
     (let t1 = t\<lparr>m_schedule_time := m_schedule_time t + 1\<rparr>
      in t1\<lparr>m_wait_worker_watcher := sw_start sw (m_wait_worker_watcher t1)\<rparr>)"

definition pop_out_runnable_queue :: "'w MonotonicStopWatch \<Rightarrow> 'w PipelineTask \<Rightarrow> 'w PipelineTask" where
  "pop_out_runnable_queue sw t = t\<lparr>m_wait_worker_watcher := sw_stop sw (m_wait_worker_watcher t)\<rparr>"

definition start_schedule_watcher :: "'w MonotonicStopWatch \<Rightarrow> 'w PipelineTask \<Rightarrow> 'w PipelineTask" where
  "start_schedule_watcher sw t = t\<lparr>m_wait_schedule_watcher := sw_start sw (m_wait_schedule_watcher t)\<rparr>"

definition stop_schedule_watcher :: "'w MonotonicStopWatch \<Rightarrow> 'w PipelineTask \<Rightarrow> 'w PipelineTask" where
  "stop_schedule_watcher sw t = t\<lparr>m_wait_schedule_watcher := sw_stop sw (m_wait_schedule_watcher t)\<rparr>"

definition get_state :: "'w PipelineTask \<Rightarrow> PipelineTaskState" where
  "get_state t = m_cur_state t"

text \<open>
  The calls through the operator pointers read the operator store \<open>h\<close>. \<^verbatim>\<open>||\<close> evaluates
  its right operand only when the left one is false; the operators' predicates are
  observations, so the disjunction of HOL returns the same value.
\<close>

definition is_pending_finish ::
  "'o OperatorBase \<Rightarrow> (OperatorPtr \<Rightarrow> 'o) \<Rightarrow> 'w PipelineTask \<Rightarrow> bool" where
  "is_pending_finish ops h t \<longleftrightarrow>
     op_is_pending_finish ops (h (m_source t)) \<or> op_is_pending_finish ops (h (m_sink t))"

definition source_can_read ::
  "'o OperatorBase \<Rightarrow> (OperatorPtr \<Rightarrow> 'o) \<Rightarrow> 'w PipelineTask \<Rightarrow> bool" where
  "source_can_read ops h t \<longleftrightarrow> op_can_read ops (h (m_source t))"

definition runtime_filters_are_ready_or_timeout ::
  "'o OperatorBase \<Rightarrow> (OperatorPtr \<Rightarrow> 'o) \<Rightarrow> 'w PipelineTask \<Rightarrow> bool" where
  "runtime_filters_are_ready_or_timeout ops h t \<longleftrightarrow>
     op_runtime_filters_are_ready_or_timeout ops (h (m_source t))"

definition sink_can_write ::
  "'o OperatorBase \<Rightarrow> (OperatorPtr \<Rightarrow> 'o) \<Rightarrow> 'w PipelineTask \<Rightarrow> bool" where
  "sink_can_write ops h t \<longleftrightarrow> op_can_write ops (h (m_sink t))"

definition can_steal :: "'w PipelineTask \<Rightarrow> bool" where
  "can_steal t = m_can_steal t"

definition get_previous_core_id :: "(PipelinePtr \<Rightarrow> Pipeline) \<Rightarrow> 'w PipelineTask \<Rightarrow> int32" where
  "get_previous_core_id pipelines t =
     (if m_previous_schedule_id t \<noteq> - 1 then m_previous_schedule_id t
      else pl_previous_schedule_id (pipelines (m_pipeline t)))"

text \<open>
  \<^verbatim>\<open>COUNTER_UPDATE(c, 1)\<close> adds one to the counter \<^verbatim>\<open>c\<close> points to. The parameter \<^verbatim>\<open>id\<close> is
  written \<open>id'\<close> (\<open>id\<close> is the identity function of HOL).
\<close>

definition set_previous_core_id :: "int32 \<Rightarrow> 'w PipelineTask \<Rightarrow> 'w PipelineTask" where
  "set_previous_core_id id' t =
     (if id' = m_previous_schedule_id t then t
      else
        let t1 = (if m_previous_schedule_id t \<noteq> - 1
                  then t\<lparr>m_core_change_times := m_core_change_times t + 1\<rparr>
                  else t)
        in t1\<lparr>m_previous_schedule_id := id'\<rparr>)"

definition get_root :: "'w PipelineTask \<Rightarrow> OperatorPtr" where
  "get_root t = m_root t"

definition THREAD_TIME_SLICE :: int64 where
  "THREAD_TIME_SLICE = 100000000"

definition inc_runtime_ns :: "uint64 \<Rightarrow> 'w PipelineTask \<Rightarrow> 'w PipelineTask" where
  "inc_runtime_ns delta_time t = t\<lparr>m_runtime := m_runtime t + delta_time\<rparr>"

definition get_runtime_ns :: "'w PipelineTask \<Rightarrow> uint64" where
  "get_runtime_ns t = m_runtime t"

definition update_queue_level :: "int32 \<Rightarrow> 'w PipelineTask \<Rightarrow> 'w PipelineTask" where
  "update_queue_level queue_level t = t\<lparr>m_queue_level := queue_level\<rparr>"

definition get_queue_level :: "'w PipelineTask \<Rightarrow> int32" where
  "get_queue_level t = m_queue_level t"

definition set_core_id :: "int32 \<Rightarrow> 'w PipelineTask \<Rightarrow> 'w PipelineTask" where
  "set_core_id core_id t = t\<lparr>m_core_id := core_id\<rparr>"

definition get_core_id :: "'w PipelineTask \<Rightarrow> int32" where
  "get_core_id t = m_core_id t"

text \<open>A fresh task, as the constructor leaves it: two operators at the addresses 0 and 1,
  the sink at 2, a pipeline at 0 whose core hint is 5.\<close>

definition example_pipelines :: "PipelinePtr \<Rightarrow> Pipeline" where
  "example_pipelines p = \<lparr> pl_can_steal = True, pl_previous_schedule_id = 5, pl_parents = [] \<rparr>"

definition example_task :: "unit PipelineTask" where
  "example_task = \<lparr>
     m_index = 0, m_pipeline = 0, m_dependency_finish = False,
     m_operators = [0, 1], m_source = 0, m_root = 1, m_sink = 2,
     m_prepared = False, m_opened = False, m_can_steal = True,
     m_previous_schedule_id = - 1, m_schedule_time = 0,
     m_cur_state = NOT_READY, m_data_state = DEPEND_ON_SOURCE,
     m_runtime = 0, m_queue_level = 0, m_core_id = 0,
     m_wait_worker_watcher = (), m_wait_schedule_watcher = (),
     m_core_change_times = 0 \<rparr>"

subsection \<open>The state machine of the header's comment\<close>

text \<open>
  The comment above \<^verbatim>\<open>PipelineTaskState\<close> draws the state machine and numbers its
  transfers from 0 to 9. There BLOCKED stands for \<^verbatim>\<open>BLOCKED_FOR_DEPENDENCY\<close>,
  \<^verbatim>\<open>BLOCKED_FOR_SOURCE\<close> and \<^verbatim>\<open>BLOCKED_FOR_SINK\<close>.
\<close>

fun fsm_blocked :: "PipelineTaskState \<Rightarrow> bool" where
  "fsm_blocked BLOCKED_FOR_DEPENDENCY = True"
| "fsm_blocked BLOCKED_FOR_SOURCE = True"
| "fsm_blocked BLOCKED_FOR_SINK = True"
| "fsm_blocked s = False"

inductive transfer :: "PipelineTaskState \<Rightarrow> PipelineTaskState \<Rightarrow> bool" where
  transfer_0: "fsm_blocked b \<Longrightarrow> transfer NOT_READY b"
| transfer_1: "transfer NOT_READY RUNNABLE"
| transfer_2: "fsm_blocked b \<Longrightarrow> transfer b RUNNABLE"
| transfer_3: "fsm_blocked b \<Longrightarrow> transfer RUNNABLE b"
| transfer_4: "transfer RUNNABLE CANCELED"
| transfer_5: "transfer RUNNABLE PENDING_FINISH"
| transfer_6: "transfer PENDING_FINISH CANCELED"
| transfer_7: "transfer PENDING_FINISH PipelineTaskState.FINISHED"
| transfer_8: "transfer RUNNABLE PipelineTaskState.FINISHED"
| transfer_9: "transfer RUNNABLE RUNNABLE"

code_pred transfer .

section \<open>multi\_cast\_data\_stream\_source.h\<close>

record MultiCastDataStreamerSourceOperator =
  mc_consumer_id :: int32
  mc_multi_cast_data_streamer :: nat

text \<open>
  The three methods the class defines in the header. Each returns \<^verbatim>\<open>Status::OK()\<close> and
  touches neither its arguments nor the operator: the model returns the status and the
  operator after the call.
\<close>

definition MultiCastDataStreamerSourceOperator_prepare ::
  "RuntimeStatePtr \<Rightarrow> MultiCastDataStreamerSourceOperator
     \<Rightarrow> Status \<times> MultiCastDataStreamerSourceOperator" where
  "MultiCastDataStreamerSourceOperator_prepare state self = (OK, self)"

definition MultiCastDataStreamerSourceOperator_open ::
  "RuntimeStatePtr \<Rightarrow> MultiCastDataStreamerSourceOperator
     \<Rightarrow> Status \<times> MultiCastDataStreamerSourceOperator" where
  "MultiCastDataStreamerSourceOperator_open state self = (OK, self)"

definition MultiCastDataStreamerSourceOperator_sink ::
  "RuntimeStatePtr \<Rightarrow> BlockPtr \<Rightarrow> SourceState \<Rightarrow> MultiCastDataStreamerSourceOperator
     \<Rightarrow> Status \<times> MultiCastDataStreamerSourceOperator" where
  "MultiCastDataStreamerSourceOperator_sink state block source_state self = (OK, self)"

definition MultiCastDataStreamerSourceOperatorBuilder_is_source :: bool where
  "MultiCastDataStreamerSourceOperatorBuilder_is_source = True"

section \<open>Units\<close>

text \<open>A millisecond is a million nanoseconds.\<close>

definition ms_to_ns :: "int \<Rightarrow> int" where
  "ms_to_ns ms = ms * 1000000"

section \<open>Parts of the repository that are not among the sources\<close>

text \<open>
  Modelled from the spec: the configuration that declares the tunables is not among the
  sources. Section 6: \<^verbatim>\<open>pipeline_time_slice_ns\<close> (default 1e8 = 100 ms).
\<close>

definition pipeline_time_slice_ns_default :: int where
  "pipeline_time_slice_ns_default = 10 ^ 8"

text \<open>
  Modelled from the spec: \<^verbatim>\<open>PipelineTask::set_state\<close> is declared in the header and defined
  in \<^verbatim>\<open>pipeline_task.cpp\<close>, which is not among the sources. Section 4.3: all state changes
  go through \<^verbatim>\<open>set_state\<close>, which updates timers. The spec names no timer that it starts or
  stops, so the model writes the state and nothing else.
\<close>

definition set_state :: "PipelineTaskState \<Rightarrow> 'w PipelineTask \<Rightarrow> 'w PipelineTask" where
  "set_state state t = t\<lparr>m_cur_state := state\<rparr>"

text \<open>
  Modelled from the spec: the transition table of section 4.3 (the callers of
  \<^verbatim>\<open>set_state\<close> are not among the sources), one rule for each row in the order of the
  table. "Any BLOCKED" of the last row is each of the four blocked states.
\<close>

fun is_blocked :: "PipelineTaskState \<Rightarrow> bool" where
  "is_blocked BLOCKED_FOR_DEPENDENCY = True"
| "is_blocked BLOCKED_FOR_SOURCE = True"
| "is_blocked BLOCKED_FOR_SINK = True"
| "is_blocked BLOCKED_FOR_RF = True"
| "is_blocked s = False"

inductive transition :: "PipelineTaskState \<Rightarrow> PipelineTaskState \<Rightarrow> bool" where
  not_ready_blocked: "transition NOT_READY BLOCKED_FOR_DEPENDENCY"
| not_ready_runnable: "transition NOT_READY RUNNABLE"
| dependency_runnable: "transition BLOCKED_FOR_DEPENDENCY RUNNABLE"
| runnable_rf: "transition RUNNABLE BLOCKED_FOR_RF"
| rf_runnable: "transition BLOCKED_FOR_RF RUNNABLE"
| runnable_source: "transition RUNNABLE BLOCKED_FOR_SOURCE"
| source_runnable: "transition BLOCKED_FOR_SOURCE RUNNABLE"
| runnable_sink: "transition RUNNABLE BLOCKED_FOR_SINK"
| sink_runnable: "transition BLOCKED_FOR_SINK RUNNABLE"
| yield: "transition RUNNABLE RUNNABLE"
| runnable_pending_finish: "transition RUNNABLE PENDING_FINISH"
| runnable_finished: "transition RUNNABLE PipelineTaskState.FINISHED"
| pending_finish_finished: "transition PENDING_FINISH PipelineTaskState.FINISHED"
| canceled: "s = RUNNABLE \<or> s = PENDING_FINISH \<or> is_blocked s \<Longrightarrow> transition s CANCELED"

code_pred transition .

text \<open>Section 4.3: the terminal states are \<^verbatim>\<open>FINISHED\<close> and \<^verbatim>\<open>CANCELED\<close>.\<close>

fun is_terminal :: "PipelineTaskState \<Rightarrow> bool" where
  "is_terminal PipelineTaskState.FINISHED = True"
| "is_terminal CANCELED = True"
| "is_terminal s = False"

text \<open>
  Modelled from the spec: \<^verbatim>\<open>PipelineTask::execute\<close> (\<^verbatim>\<open>pipeline_task.cpp\<close>, not among the
  sources). Section 4.3, step 1: "If cancelled, set CANCELED and return." \<open>canceled\<close> is
  what \<^verbatim>\<open>is_canceled()\<close> of the fragment context returns when the slice starts. Steps 2 to
  4 (the deferred open, the block loop and the end of the stream) are the parameter
  \<open>run_slice\<close>; the returned status and \<^verbatim>\<open>eos\<close> are left out.
\<close>

definition execute ::
  "('w PipelineTask \<Rightarrow> 'w PipelineTask) \<Rightarrow> bool \<Rightarrow> 'w PipelineTask \<Rightarrow> 'w PipelineTask" where
  "execute run_slice canceled t = (if canceled then set_state CANCELED t else run_slice t)"

text \<open>
  Modelled from the spec: the pass of \<^verbatim>\<open>BlockedTaskScheduler\<close> over one task of its lists
  (not among the sources). Section 4.5: it rechecks the task's wake predicate (dependency
  count zero; \<^verbatim>\<open>source_can_read()\<close> or source end-of-stream; \<^verbatim>\<open>sink_can_write()\<close>;
  \<^verbatim>\<open>runtime_filters_are_ready_or_timeout()\<close>; \<^verbatim>\<open>!is_pending_finish()\<close>); on match it
  transitions the task to \<^verbatim>\<open>RUNNABLE\<close> (or \<^verbatim>\<open>FINISHED\<close>, for pending-finish completion).
  Cancellation is checked first on every pass and wins over all other predicates.
  \<open>canceled\<close> is what \<^verbatim>\<open>is_canceled()\<close> returns in this pass and \<open>dependency\<close> what
  \<^verbatim>\<open>has_dependency()\<close> returns (declared in the header, defined in \<^verbatim>\<open>pipeline_task.cpp\<close>).
  The lists hold the blocked and the pending-finish tasks only.
\<close>

definition blocked_sweep ::
  "'o OperatorBase \<Rightarrow> (OperatorPtr \<Rightarrow> 'o) \<Rightarrow> bool \<Rightarrow> bool \<Rightarrow> 'w PipelineTask \<Rightarrow> 'w PipelineTask" where
  "blocked_sweep ops h canceled dependency t =
     (if canceled then set_state CANCELED t
      else case m_cur_state t of
        BLOCKED_FOR_DEPENDENCY \<Rightarrow> if \<not> dependency then set_state RUNNABLE t else t
      | BLOCKED_FOR_SOURCE \<Rightarrow>
          if source_can_read ops h t \<or> m_data_state t = SourceState.FINISHED
          then set_state RUNNABLE t else t
      | BLOCKED_FOR_SINK \<Rightarrow> if sink_can_write ops h t then set_state RUNNABLE t else t
      | BLOCKED_FOR_RF \<Rightarrow>
          if runtime_filters_are_ready_or_timeout ops h t then set_state RUNNABLE t else t
      | PENDING_FINISH \<Rightarrow>
          if \<not> is_pending_finish ops h t then set_state PipelineTaskState.FINISHED t else t
      | _ \<Rightarrow> t)"

text \<open>
  Modelled from the spec: \<^verbatim>\<open>PipelineTask::try_close\<close> is declared in the header and defined
  in \<^verbatim>\<open>pipeline_task.cpp\<close>, which is not among the sources. Section 4.3: \<^verbatim>\<open>try_close()\<close>
  initiates teardown on every operator in chain order and is safe to call from any state.
  The chain is the operator list followed by the sink. Each call works on the operator
  object in the store, so an operator that stands twice in the chain is closed twice. The
  spec does not say how the statuses of the operators make the status of the task:
  \<open>combine\<close> is a parameter. The result is the status, the store and the task after the call.
\<close>

fun try_close_chain ::
  "('o \<Rightarrow> Status \<times> 'o) \<Rightarrow> OperatorPtr list \<Rightarrow> (OperatorPtr \<Rightarrow> 'o)
     \<Rightarrow> Status list \<times> (OperatorPtr \<Rightarrow> 'o)" where
  "try_close_chain f [] h = ([], h)"
| "try_close_chain f (p # ps) h =
     (case f (h p) of (s, o') \<Rightarrow>
        (case try_close_chain f ps (h(p := o')) of (ss, h') \<Rightarrow> (s # ss, h')))"

definition try_close ::
  "(Status list \<Rightarrow> Status) \<Rightarrow> 'o OperatorBase \<Rightarrow> (OperatorPtr \<Rightarrow> 'o) \<Rightarrow> 'w PipelineTask
     \<Rightarrow> Status \<times> (OperatorPtr \<Rightarrow> 'o) \<times> 'w PipelineTask" where
  "try_close combine ops h t =
     (case try_close_chain (op_try_close ops) (m_operators t @ [m_sink t]) h of
        (ss, h') \<Rightarrow> (combine ss, h', t))"

text \<open>
  An operator interface to run the functions on: the operator's state says whether its
  teardown has been initiated; \<open>try_close\<close> initiates it and succeeds, and the operator is
  pending finish from then on.
\<close>

definition example_ops :: "bool OperatorBase" where
  "example_ops = \<lparr>
     op_can_read = (\<lambda>c. \<not> c), op_can_write = (\<lambda>c. \<not> c),
     op_is_pending_finish = (\<lambda>c. c),
     op_runtime_filters_are_ready_or_timeout = (\<lambda>c. True),
     op_try_close = (\<lambda>c. (OK, True)) \<rparr>"

section \<open>Properties\<close>

subsection \<open>Helper lemmas\<close>

lemma example_task_new:
  "PipelineTask_new example_pipelines () 0 0 [0, 1] 2 = Some example_task"
  by (simp add: PipelineTask_new_def example_task_def example_pipelines_def)

lemma set_state_state: "m_cur_state (set_state s t) = s"
  by (simp add: set_state_def)

lemma transition_terminal: "is_terminal s \<Longrightarrow> \<not> transition s s'"
  by (cases s; auto elim: transition.cases)

lemma transfer_terminal: "is_terminal s \<Longrightarrow> \<not> transfer s s'"
  by (cases s; auto elim: transfer.cases)

text \<open>
  The header's comment has the transfers 4 and 6 into \<^verbatim>\<open>CANCELED\<close>, from \<^verbatim>\<open>RUNNABLE\<close> and
  from \<^verbatim>\<open>PENDING_FINISH\<close>; the blocked states reach it by the table of the specification.
\<close>

lemma transfer_canceled: "s = RUNNABLE \<or> s = PENDING_FINISH \<Longrightarrow> transfer s CANCELED"
  by (auto intro: transfer.intros)

text \<open>
  On the tasks its lists hold, a pass of the blocked scheduler leaves the state as it is or
  takes a transition of the table.
\<close>

lemma blocked_sweep_follows_table:
  assumes "is_blocked (m_cur_state t) \<or> m_cur_state t = PENDING_FINISH"
  shows "m_cur_state (blocked_sweep ops h c d t) = m_cur_state t
     \<or> transition (m_cur_state t) (m_cur_state (blocked_sweep ops h c d t))"
  using assms
  by (cases "m_cur_state t")
     (auto simp: blocked_sweep_def set_state_state intro: transition.intros)

lemma uint64_add_no_overflow:
  fixes a b :: uint64
  assumes "unat a + unat b < 2 ^ 64"
  shows "unat (a + b) = unat a + unat b" and "a \<le> a + b"
proof -
  show s: "unat (a + b) = unat a + unat b"
    using assms by (simp add: unat_word_ariths)
  show "a \<le> a + b"
    by (simp add: word_le_nat_alt s)
qed

text \<open>No other function of the header writes \<^verbatim>\<open>_runtime\<close>.\<close>

lemma runtime_frame:
  "get_runtime_ns (put_in_runnable_queue sw t) = get_runtime_ns t"
  "get_runtime_ns (pop_out_runnable_queue sw t) = get_runtime_ns t"
  "get_runtime_ns (start_schedule_watcher sw t) = get_runtime_ns t"
  "get_runtime_ns (stop_schedule_watcher sw t) = get_runtime_ns t"
  "get_runtime_ns (set_previous_core_id id' t) = get_runtime_ns t"
  "get_runtime_ns (update_queue_level queue_level t) = get_runtime_ns t"
  "get_runtime_ns (set_core_id core_id t) = get_runtime_ns t"
  by (simp_all add: get_runtime_ns_def put_in_runnable_queue_def pop_out_runnable_queue_def
      start_schedule_watcher_def stop_schedule_watcher_def set_previous_core_id_def
      update_queue_level_def set_core_id_def Let_def)

text \<open>Once a core other than -1 has been assigned, the task answers with its own core.\<close>

lemma get_previous_core_id_after_set:
  "id' \<noteq> - 1 \<Longrightarrow> get_previous_core_id pipelines (set_previous_core_id id' t) = id'"
  by (auto simp: get_previous_core_id_def set_previous_core_id_def Let_def)

subsection \<open>Closing the operators of a chain twice\<close>

lemma try_close_chain_Cons:
  "try_close_chain f (p # ps) h =
     (fst (f (h p)) # fst (try_close_chain f ps (h(p := snd (f (h p))))),
      snd (try_close_chain f ps (h(p := snd (f (h p))))))"
  by (simp split: prod.splits)

text \<open>
  An operator that \<open>try_close\<close> leaves as it is stays as it is through the whole chain, also
  when its address stands in the chain.
\<close>

lemma try_close_chain_keeps_closed:
  "snd (f (h q)) = h q \<Longrightarrow> snd (try_close_chain f ps h) q = h q"
proof (induction ps arbitrary: h)
  case Nil
  then show ?case by simp
next
  case (Cons p ps)
  let ?h = "h(p := snd (f (h p)))"
  have same: "?h q = h q"
    using Cons.prems by (cases "p = q") auto
  then have "snd (f (?h q)) = ?h q"
    using Cons.prems by simp
  then have "snd (try_close_chain f ps ?h) q = ?h q"
    by (rule Cons.IH [of ?h])
  then show ?case
    by (simp only: try_close_chain_Cons snd_conv same)
qed

text \<open>
  One step of the chain: the operators behind the first are still idempotent in the new
  store, and the first operator ends as its own call left it.
\<close>

lemma try_close_step_idempotent:
  assumes "\<forall>q\<in>set (p # ps). f (snd (f (h q))) = f (h q)"
  shows "\<forall>q\<in>set ps. f (snd (f ((h(p := snd (f (h p)))) q))) = f ((h(p := snd (f (h p)))) q)"
    and "snd (try_close_chain f ps (h(p := snd (f (h p))))) p = snd (f (h p))"
    and "f (snd (try_close_chain f ps (h(p := snd (f (h p))))) p) = f (h p)"
proof -
  let ?h = "h(p := snd (f (h p)))"
  have idem: "f (snd (f (h p))) = f (h p)"
    using assms by simp
  show "\<forall>q\<in>set ps. f (snd (f (?h q))) = f (?h q)"
    using assms idem by auto
  have "snd (f (?h p)) = ?h p"
    using idem by simp
  then have "snd (try_close_chain f ps ?h) p = ?h p"
    by (rule try_close_chain_keeps_closed)
  then show p: "snd (try_close_chain f ps ?h) p = snd (f (h p))"
    by simp
  show "f (snd (try_close_chain f ps ?h) p) = f (h p)"
    by (simp only: p idem)
qed

lemma try_close_chain_closes:
  assumes "\<forall>p\<in>set ps. f (snd (f (h p))) = f (h p)"
  shows "\<forall>p\<in>set ps. snd (f (snd (try_close_chain f ps h) p)) = snd (try_close_chain f ps h) p"
  using assms
proof (induction ps arbitrary: h)
  case Nil
  then show ?case by simp
next
  case (Cons p ps)
  let ?h = "h(p := snd (f (h p)))"
  note step = try_close_step_idempotent [OF Cons.prems]
  have tl: "\<forall>q\<in>set ps. snd (f (snd (try_close_chain f ps ?h) q)) = snd (try_close_chain f ps ?h) q"
    by (rule Cons.IH [OF step(1)])
  have hd: "snd (f (snd (try_close_chain f ps ?h) p)) = snd (try_close_chain f ps ?h) p"
    by (simp only: step(3)) (simp only: step(2))
  have r: "snd (try_close_chain f (p # ps) h) = snd (try_close_chain f ps ?h)"
    by (simp only: try_close_chain_Cons snd_conv)
  show ?case
    using tl hd by (simp add: r del: try_close_chain.simps)
qed

lemma try_close_chain_statuses:
  assumes "\<forall>p\<in>set ps. f (snd (f (h p))) = f (h p)"
  shows "fst (try_close_chain f ps h) = map (\<lambda>p. fst (f (snd (try_close_chain f ps h) p))) ps"
  using assms
proof (induction ps arbitrary: h)
  case Nil
  then show ?case by simp
next
  case (Cons p ps)
  let ?h = "h(p := snd (f (h p)))"
  note step = try_close_step_idempotent [OF Cons.prems]
  have tl: "fst (try_close_chain f ps ?h) = map (\<lambda>p. fst (f (snd (try_close_chain f ps ?h) p))) ps"
    by (rule Cons.IH [OF step(1)])
  have r: "try_close_chain f (p # ps) h
             = (fst (f (h p)) # fst (try_close_chain f ps ?h), snd (try_close_chain f ps ?h))"
    by (rule try_close_chain_Cons)
  show ?case
    using tl by (simp add: r step(3) del: try_close_chain.simps)
qed

lemma try_close_chain_closed:
  assumes "\<forall>p\<in>set ps. snd (f (h p)) = h p"
  shows "try_close_chain f ps h = (map (\<lambda>p. fst (f (h p))) ps, h)"
  using assms
proof (induction ps)
  case Nil
  then show ?case by simp
next
  case (Cons p ps)
  obtain s o' where f: "f (h p) = (s, o')" by (cases "f (h p)")
  have "o' = h p"
    using Cons.prems f by simp
  then have "h(p := o') = h"
    by simp
  then show ?case
    using Cons f by simp
qed

lemma try_close_chain_idempotent:
  assumes "\<forall>p\<in>set ps. f (snd (f (h p))) = f (h p)"
  shows "try_close_chain f ps (snd (try_close_chain f ps h)) = try_close_chain f ps h"
proof -
  let ?h = "snd (try_close_chain f ps h)"
  have "try_close_chain f ps ?h = (map (\<lambda>p. fst (f (?h p))) ps, ?h)"
    by (rule try_close_chain_closed) (rule try_close_chain_closes [OF assms])
  also have "\<dots> = (fst (try_close_chain f ps h), ?h)"
    using try_close_chain_statuses [OF assms] by simp
  finally show ?thesis by simp
qed

subsection \<open>The claims\<close>

text \<open>
  C1. A task in state \<^verbatim>\<open>RUNNABLE\<close>, \<^verbatim>\<open>PENDING_FINISH\<close> or any blocked state
  (\<^verbatim>\<open>BLOCKED_FOR_DEPENDENCY\<close>, \<^verbatim>\<open>BLOCKED_FOR_SOURCE\<close>, \<^verbatim>\<open>BLOCKED_FOR_SINK\<close>, and also
  \<^verbatim>\<open>BLOCKED_FOR_RF\<close>) whose holder observes the cancellation of the fragment context is
  \<^verbatim>\<open>CANCELED\<close> afterwards: the worker observes it when it starts a slice (\<open>execute\<close>), the
  blocked scheduler in its pass (\<open>blocked_sweep\<close>). The state after the observation is
  terminal, and the step is the last row of the transition table.
\<close>

theorem cancellation_observed:
  assumes "m_cur_state t \<in> {RUNNABLE, PENDING_FINISH, BLOCKED_FOR_DEPENDENCY,
             BLOCKED_FOR_SOURCE, BLOCKED_FOR_SINK, BLOCKED_FOR_RF}"
  shows "get_state (execute run_slice True t) = CANCELED
     \<and> get_state (blocked_sweep ops h True dependency t) = CANCELED
     \<and> is_terminal (get_state (execute run_slice True t))
     \<and> is_terminal (get_state (blocked_sweep ops h True dependency t))
     \<and> transition (m_cur_state t) CANCELED"
proof -
  have e: "get_state (execute run_slice True t) = CANCELED"
    by (simp add: execute_def get_state_def set_state_state)
  have b: "get_state (blocked_sweep ops h True dependency t) = CANCELED"
    by (simp add: blocked_sweep_def get_state_def set_state_state)
  have "m_cur_state t = RUNNABLE \<or> m_cur_state t = PENDING_FINISH \<or> is_blocked (m_cur_state t)"
    using assms by auto
  then have "transition (m_cur_state t) CANCELED"
    by (rule transition.canceled)
  then show ?thesis
    by (simp add: e b)
qed

theorem cancellation_observed_witness:
  "get_state (blocked_sweep example_ops (\<lambda>p. False) True False
      (example_task\<lparr>m_cur_state := BLOCKED_FOR_SOURCE\<rparr>)) = CANCELED
   \<and> get_state (execute (\<lambda>t. t) True (example_task\<lparr>m_cur_state := BLOCKED_FOR_SOURCE\<rparr>)) = CANCELED
   \<and> transition BLOCKED_FOR_SOURCE CANCELED"
proof -
  have "m_cur_state (example_task\<lparr>m_cur_state := BLOCKED_FOR_SOURCE\<rparr>)
          \<in> {RUNNABLE, PENDING_FINISH, BLOCKED_FOR_DEPENDENCY,
             BLOCKED_FOR_SOURCE, BLOCKED_FOR_SINK, BLOCKED_FOR_RF}"
    by simp
  from cancellation_observed [OF this, of "\<lambda>t. t" example_ops "\<lambda>p. False" False]
  show ?thesis by simp
qed

text \<open>
  C2. \<^verbatim>\<open>is_pending_finish()\<close> of a task is true if and only if the source operator's or the
  sink operator's \<^verbatim>\<open>is_pending_finish()\<close> is true. So the trigger of the transition from
  \<^verbatim>\<open>PENDING_FINISH\<close> to \<^verbatim>\<open>FINISHED\<close>, \<^verbatim>\<open>!is_pending_finish()\<close>, holds exactly when neither
  the source nor the sink is pending finish, and a pass of the blocked scheduler that
  observes no cancellation (C1 is about the one that does) finishes a \<^verbatim>\<open>PENDING_FINISH\<close>
  task exactly then.
\<close>

theorem is_pending_finish_source_or_sink:
  "(is_pending_finish ops h t \<longleftrightarrow>
      op_is_pending_finish ops (h (m_source t)) \<or> op_is_pending_finish ops (h (m_sink t)))
   \<and> (\<not> is_pending_finish ops h t \<longleftrightarrow>
      \<not> op_is_pending_finish ops (h (m_source t)) \<and> \<not> op_is_pending_finish ops (h (m_sink t)))
   \<and> (m_cur_state t = PENDING_FINISH \<longrightarrow>
       (get_state (blocked_sweep ops h False dependency t) = PipelineTaskState.FINISHED \<longleftrightarrow>
          \<not> op_is_pending_finish ops (h (m_source t)) \<and> \<not> op_is_pending_finish ops (h (m_sink t))))"
  by (simp add: is_pending_finish_def blocked_sweep_def get_state_def set_state_state)

theorem is_pending_finish_source_or_sink_witness:
  "m_cur_state (example_task\<lparr>m_cur_state := PENDING_FINISH\<rparr>) = PENDING_FINISH
   \<and> \<not> is_pending_finish example_ops (\<lambda>p. False) (example_task\<lparr>m_cur_state := PENDING_FINISH\<rparr>)
   \<and> get_state (blocked_sweep example_ops (\<lambda>p. False) False False
        (example_task\<lparr>m_cur_state := PENDING_FINISH\<rparr>)) = PipelineTaskState.FINISHED"
  using is_pending_finish_source_or_sink
    [of example_ops "\<lambda>p. False" "example_task\<lparr>m_cur_state := PENDING_FINISH\<rparr>" False]
  by (simp add: example_ops_def)

text \<open>
  C3. \<^verbatim>\<open>THREAD_TIME_SLICE\<close> is 100 milliseconds, that is 100000000 = 10^8 nanoseconds, the
  default of the tunable \<^verbatim>\<open>pipeline_time_slice_ns\<close>.
\<close>

theorem THREAD_TIME_SLICE_100ms:
  "sint THREAD_TIME_SLICE = ms_to_ns 100
   \<and> sint THREAD_TIME_SLICE = 100000000
   \<and> sint THREAD_TIME_SLICE = 10 ^ 8
   \<and> sint THREAD_TIME_SLICE = pipeline_time_slice_ns_default"
  by (simp add: THREAD_TIME_SLICE_def ms_to_ns_def pipeline_time_slice_ns_default_def)

text \<open>
  C4, as amended. \<^verbatim>\<open>set_previous_core_id(id)\<close> adds one to the core-change counter when
  the new core id differs from the recorded one and a core has been recorded before (the
  recorded id is not -1). On the first assignment (recorded id -1) and when the id is the
  recorded one, the counter stays as it is. In every case the recorded id is the new one
  afterwards.
\<close>

theorem set_previous_core_id_counter:
  "m_core_change_times (set_previous_core_id id' t) =
     (if id' \<noteq> m_previous_schedule_id t \<and> m_previous_schedule_id t \<noteq> - 1
      then m_core_change_times t + 1 else m_core_change_times t)
   \<and> m_previous_schedule_id (set_previous_core_id id' t) = id'"
  by (simp add: set_previous_core_id_def Let_def)

text \<open>
  C4 as stated fails on a fresh task: core 0 differs from the recorded id -1, and the
  counter is not incremented.
\<close>

theorem set_previous_core_id_first_assignment:
  "(0 :: int32) \<noteq> m_previous_schedule_id example_task
   \<and> m_core_change_times (set_previous_core_id 0 example_task) = m_core_change_times example_task
   \<and> m_core_change_times (set_previous_core_id 0 example_task) \<noteq> m_core_change_times example_task + 1"
  by (simp add: set_previous_core_id_def example_task_def)

text \<open>
  C5. A newly constructed task is in state \<^verbatim>\<open>NOT_READY\<close> (and the constructor returns a
  task whenever the operator list is not empty); no transition leaves \<^verbatim>\<open>FINISHED\<close> or
  \<^verbatim>\<open>CANCELED\<close>, neither in the transition table nor in the state machine of the header's
  comment.
\<close>

theorem initial_state_and_terminal_states:
  "(\<forall>t. PipelineTask_new pipelines w0 pipeline index operators sink = Some t
        \<longrightarrow> get_state t = NOT_READY)
   \<and> (operators \<noteq> [] \<longrightarrow> PipelineTask_new pipelines w0 pipeline index operators sink \<noteq> None)
   \<and> (\<forall>s. \<not> transition PipelineTaskState.FINISHED s)
   \<and> (\<forall>s. \<not> transition CANCELED s)
   \<and> (\<forall>s. \<not> transfer PipelineTaskState.FINISHED s)
   \<and> (\<forall>s. \<not> transfer CANCELED s)"
proof -
  have "\<forall>t. PipelineTask_new pipelines w0 pipeline index operators sink = Some t
        \<longrightarrow> get_state t = NOT_READY"
    by (auto simp: PipelineTask_new_def get_state_def split: if_splits)
  moreover have "operators \<noteq> [] \<longrightarrow> PipelineTask_new pipelines w0 pipeline index operators sink \<noteq> None"
    by (simp add: PipelineTask_new_def)
  ultimately show ?thesis
    by (simp add: transition_terminal transfer_terminal)
qed

theorem initial_state_and_terminal_states_witness:
  "PipelineTask_new example_pipelines () 0 0 [0, 1] 2 = Some example_task
   \<and> get_state example_task = NOT_READY"
  using initial_state_and_terminal_states [of example_pipelines "()" 0 0 "[0, 1]" 2] example_task_new
  by simp

text \<open>
  C6. Calling \<^verbatim>\<open>try_close()\<close> twice has the same effect as calling it once, on the task, on
  the operators and on the returned status, in every state of the task: the second call,
  on the store and the task the first one left, returns what the first one returned. The
  operators of the task honour their contract (section 4.1: \<^verbatim>\<open>try_close\<close> of an operator is
  idempotent).
\<close>

theorem try_close_idempotent:
  assumes "\<forall>p\<in>set (m_operators t @ [m_sink t]).
             op_try_close ops (snd (op_try_close ops (h p))) = op_try_close ops (h p)"
  shows "try_close combine ops (fst (snd (try_close combine ops h t)))
           (snd (snd (try_close combine ops h t))) = try_close combine ops h t"
proof -
  let ?ps = "m_operators t @ [m_sink t]"
  let ?r = "try_close_chain (op_try_close ops) ?ps h"
  have r: "try_close combine ops h t = (combine (fst ?r), snd ?r, t)"
    by (simp add: try_close_def split: prod.splits)
  have "try_close_chain (op_try_close ops) ?ps (snd ?r) = ?r"
    by (rule try_close_chain_idempotent [OF assms])
  then have "try_close combine ops (snd ?r) t = (combine (fst ?r), snd ?r, t)"
    by (simp add: try_close_def split: prod.splits)
  then show ?thesis
    by (simp add: r)
qed

theorem try_close_idempotent_witness:
  "op_try_close example_ops (snd (op_try_close example_ops False)) = op_try_close example_ops False
   \<and> try_close hd example_ops (fst (snd (try_close hd example_ops (\<lambda>p. False) example_task)))
           (snd (snd (try_close hd example_ops (\<lambda>p. False) example_task)))
       = try_close hd example_ops (\<lambda>p. False) example_task
   \<and> fst (try_close hd example_ops (\<lambda>p. False) example_task) = OK
   \<and> fst (snd (try_close hd example_ops (\<lambda>p. False) example_task)) 0 = True
   \<and> fst (snd (try_close hd example_ops (\<lambda>p. False) example_task)) 3 = False"
proof -
  have h: "\<forall>p\<in>set (m_operators example_task @ [m_sink example_task]).
       op_try_close example_ops (snd (op_try_close example_ops ((\<lambda>p. False) p)))
         = op_try_close example_ops ((\<lambda>p. False) p)"
    by (simp add: example_ops_def)
  have c: "try_close hd example_ops (fst (snd (try_close hd example_ops (\<lambda>p. False) example_task)))
           (snd (snd (try_close hd example_ops (\<lambda>p. False) example_task)))
       = try_close hd example_ops (\<lambda>p. False) example_task"
    by (rule try_close_idempotent [OF h])
  have v: "try_close hd example_ops (\<lambda>p. False) example_task
       = (OK, (\<lambda>p. False)(0 := True, 1 := True, 2 := True), example_task)"
    by (simp add: try_close_def example_ops_def example_task_def)
  have e: "op_try_close example_ops (snd (op_try_close example_ops False)) = op_try_close example_ops False"
    by (simp add: example_ops_def)
  show ?thesis
    using c by (simp add: v e)
qed

text \<open>
  C7. \<^verbatim>\<open>put_in_runnable_queue()\<close> increments the schedule count by exactly one (the
  increment of \<^verbatim>\<open>uint32_t\<close>) and starts the wait-for-worker timer;
  \<^verbatim>\<open>pop_out_runnable_queue()\<close> stops that timer and leaves the count as it is.
\<close>

theorem runnable_queue_schedule_time:
  "m_schedule_time (put_in_runnable_queue sw t) = m_schedule_time t + 1
   \<and> unat (m_schedule_time (put_in_runnable_queue sw t)) = (unat (m_schedule_time t) + 1) mod 2 ^ 32
   \<and> m_wait_worker_watcher (put_in_runnable_queue sw t) = sw_start sw (m_wait_worker_watcher t)
   \<and> m_wait_worker_watcher (pop_out_runnable_queue sw t) = sw_stop sw (m_wait_worker_watcher t)
   \<and> m_schedule_time (pop_out_runnable_queue sw t) = m_schedule_time t
   \<and> m_wait_worker_watcher (pop_out_runnable_queue sw (put_in_runnable_queue sw t))
       = sw_stop sw (sw_start sw (m_wait_worker_watcher t))"
  by (simp add: put_in_runnable_queue_def pop_out_runnable_queue_def Let_def unat_word_ariths)

text \<open>
  C8, as amended. After \<^verbatim>\<open>inc_runtime_ns(delta)\<close>, \<^verbatim>\<open>get_runtime_ns()\<close> is the previous value
  plus \<^verbatim>\<open>delta\<close> modulo 2^64. When the sum is below 2^64 it is the sum itself and not
  smaller than before. No other function of the header changes \<^verbatim>\<open>_runtime\<close>.
\<close>

theorem inc_runtime_ns_sum:
  "unat (get_runtime_ns (inc_runtime_ns delta_time t)) = (unat (get_runtime_ns t) + unat delta_time) mod 2 ^ 64
   \<and> (unat (get_runtime_ns t) + unat delta_time < 2 ^ 64 \<longrightarrow>
        unat (get_runtime_ns (inc_runtime_ns delta_time t)) = unat (get_runtime_ns t) + unat delta_time
        \<and> get_runtime_ns t \<le> get_runtime_ns (inc_runtime_ns delta_time t))
   \<and> get_runtime_ns (put_in_runnable_queue sw t) = get_runtime_ns t
   \<and> get_runtime_ns (pop_out_runnable_queue sw t) = get_runtime_ns t
   \<and> get_runtime_ns (start_schedule_watcher sw t) = get_runtime_ns t
   \<and> get_runtime_ns (stop_schedule_watcher sw t) = get_runtime_ns t
   \<and> get_runtime_ns (set_previous_core_id id' t) = get_runtime_ns t
   \<and> get_runtime_ns (update_queue_level queue_level t) = get_runtime_ns t
   \<and> get_runtime_ns (set_core_id core_id t) = get_runtime_ns t"
proof -
  have r: "get_runtime_ns (inc_runtime_ns delta_time t) = get_runtime_ns t + delta_time"
    by (simp add: inc_runtime_ns_def get_runtime_ns_def)
  have m: "unat (get_runtime_ns t + delta_time) = (unat (get_runtime_ns t) + unat delta_time) mod 2 ^ 64"
    by (simp add: unat_word_ariths)
  show ?thesis
    using uint64_add_no_overflow [of "get_runtime_ns t" delta_time]
    by (simp add: r m runtime_frame)
qed

theorem inc_runtime_ns_sum_witness:
  "unat (get_runtime_ns (inc_runtime_ns 7 example_task)) = 7
   \<and> get_runtime_ns example_task \<le> get_runtime_ns (inc_runtime_ns 7 example_task)"
proof -
  have z: "get_runtime_ns example_task = 0"
    by (simp add: get_runtime_ns_def example_task_def)
  have h: "unat (get_runtime_ns example_task) + unat (7 :: uint64) < 2 ^ 64"
    by (simp add: z)
  show ?thesis
    using h inc_runtime_ns_sum [of 7 example_task] by (simp add: z)
qed

text \<open>
  C8 as stated fails when the sum reaches 2^64: a runtime of 2^64 - 1 nanoseconds and a
  delta of 1 give the runtime 0, smaller than before.
\<close>

theorem inc_runtime_ns_wraps:
  "get_runtime_ns (inc_runtime_ns 1 (example_task\<lparr>m_runtime := 18446744073709551615\<rparr>)) = 0
   \<and> get_runtime_ns (example_task\<lparr>m_runtime := 18446744073709551615\<rparr>) = 18446744073709551615
   \<and> get_runtime_ns (inc_runtime_ns 1 (example_task\<lparr>m_runtime := 18446744073709551615\<rparr>))
     < get_runtime_ns (example_task\<lparr>m_runtime := 18446744073709551615\<rparr>)"
  by (simp add: inc_runtime_ns_def get_runtime_ns_def)

text \<open>
  C9. \<^verbatim>\<open>prepare\<close>, \<^verbatim>\<open>open\<close> and \<^verbatim>\<open>sink\<close> of \<^verbatim>\<open>MultiCastDataStreamerSourceOperator\<close> return an
  OK status for every input and leave the operator as it is: \<^verbatim>\<open>sink\<close> on this source
  operator is a no-op that never fails.
\<close>

theorem MultiCastDataStreamerSourceOperator_ok:
  "MultiCastDataStreamerSourceOperator_prepare state self = (OK, self)
   \<and> MultiCastDataStreamerSourceOperator_open state self = (OK, self)
   \<and> MultiCastDataStreamerSourceOperator_sink state block source_state self = (OK, self)"
  by (simp add: MultiCastDataStreamerSourceOperator_prepare_def
      MultiCastDataStreamerSourceOperator_open_def MultiCastDataStreamerSourceOperator_sink_def)

text \<open>
  C10. \<^verbatim>\<open>get_previous_core_id()\<close> returns the task's own last schedule core id when the
  recorded id differs from -1, and the last-known core hint of the owning pipeline
  otherwise.
\<close>

theorem get_previous_core_id_fallback:
  "(m_previous_schedule_id t \<noteq> - 1 \<longrightarrow> get_previous_core_id pipelines t = m_previous_schedule_id t)
   \<and> (m_previous_schedule_id t = - 1 \<longrightarrow>
        get_previous_core_id pipelines t = pl_previous_schedule_id (pipelines (m_pipeline t)))"
  by (simp add: get_previous_core_id_def)

theorem get_previous_core_id_fallback_witness:
  "m_previous_schedule_id example_task = - 1
   \<and> get_previous_core_id example_pipelines example_task = 5
   \<and> m_previous_schedule_id (set_previous_core_id 3 example_task) = 3
   \<and> get_previous_core_id example_pipelines (set_previous_core_id 3 example_task) = 3"
proof -
  have a: "m_previous_schedule_id example_task = - 1"
    by (simp add: example_task_def)
  have b: "m_previous_schedule_id (set_previous_core_id 3 example_task) = 3"
    by (simp add: set_previous_core_id_def example_task_def)
  have c: "pl_previous_schedule_id (example_pipelines (m_pipeline example_task)) = 5"
    by (simp add: example_pipelines_def)
  show ?thesis
    using get_previous_core_id_fallback [of example_task example_pipelines]
      get_previous_core_id_fallback [of "set_previous_core_id 3 example_task" example_pipelines]
    by (simp add: a b c)
qed

end
